theory Spec2Isabelle
  imports Complex_Main "HOL-Library.Sublist"
begin

section \<open>Numbers and errors\<close>

text \<open>
  The service works on JavaScript numbers. Vector components are modelled as finite
  reals and the arithmetic on them as exact; the values that IEEE arithmetic adds to the
  reals (\<open>NaN\<close> and the two infinities) are kept, because the division that ends
  \<open>calculateSimilarity\<close> and the comparison in \<open>findSimilarDocuments\<close> can meet them.
  Rounding is not modelled.
\<close>

datatype number = NaN | PosInf | NegInf | Num real

text \<open>The errors the service raises: the two \<open>throw new Error(...)\<close> of the source,
  and any failure of the backend call inside \<open>generateEmbedding\<close>.\<close>

datatype error = DimensionMismatchError | InitializationError | BackendError

text \<open>\<open>x / y\<close> on finite operands: a zero divisor gives \<open>NaN\<close> for \<open>0 / 0\<close> and an
  infinity otherwise.\<close>

definition js_div :: "real \<Rightarrow> real \<Rightarrow> number" where
  "js_div x y =
     (if y = 0 then (if x = 0 then NaN else if 0 < x then PosInf else NegInf)
      else Num (x / y))"

text \<open>\<open>x >= y\<close>: false as soon as one side is \<open>NaN\<close>.\<close>

fun js_ge :: "number \<Rightarrow> number \<Rightarrow> bool" where
  "js_ge NaN _ = False"
| "js_ge _ NaN = False"
| "js_ge PosInf _ = True"
| "js_ge _ NegInf = True"
| "js_ge NegInf _ = False"
| "js_ge _ PosInf = False"
| "js_ge (Num x) (Num y) = (y \<le> x)"

text \<open>\<open>x - y\<close>: \<open>NaN\<close> is contagious and equal infinities cancel to \<open>NaN\<close>.\<close>

fun js_sub :: "number \<Rightarrow> number \<Rightarrow> number" where
  "js_sub NaN _ = NaN"
| "js_sub _ NaN = NaN"
| "js_sub PosInf PosInf = NaN"
| "js_sub NegInf NegInf = NaN"
| "js_sub PosInf _ = PosInf"
| "js_sub NegInf _ = NegInf"
| "js_sub (Num x) PosInf = NegInf"
| "js_sub (Num x) NegInf = PosInf"
| "js_sub (Num x) (Num y) = Num (x - y)"

section \<open>calculateSimilarity\<close>

text \<open>The \<open>for\<close> loop of \<open>calculateSimilarity\<close>, with its three accumulators. It is
  only entered when both arrays have the same length, so both reads are in range.\<close>

function similarity_loop ::
  "real list \<Rightarrow> real list \<Rightarrow> nat \<Rightarrow> real \<Rightarrow> real \<Rightarrow> real \<Rightarrow> real \<times> real \<times> real" where
  "similarity_loop embedding1 embedding2 i dotProduct norm1 norm2 =
     (if i < length embedding1
      then similarity_loop embedding1 embedding2 (i + 1)
             (dotProduct + embedding1 ! i * embedding2 ! i)
             (norm1 + embedding1 ! i * embedding1 ! i)
             (norm2 + embedding2 ! i * embedding2 ! i)
      else (dotProduct, norm1, norm2))"
  by pat_completeness auto
termination
  by (relation "measure (\<lambda>(e1, e2, i, d, n1, n2). length e1 - i)") auto

declare similarity_loop.simps [simp del]

definition calculateSimilarity :: "real list \<Rightarrow> real list \<Rightarrow> error + number" where
  "calculateSimilarity embedding1 embedding2 =
     (if length embedding1 \<noteq> length embedding2 then Inl DimensionMismatchError
      else (case similarity_loop embedding1 embedding2 0 0 0 0 of
              (dotProduct, norm1, norm2) \<Rightarrow>
                Inr (js_div dotProduct (sqrt norm1 * sqrt norm2))))"

text \<open>The cosine similarity as the specification words it: the dot product over the
  product of the Euclidean norms.\<close>

definition dot :: "real list \<Rightarrow> real list \<Rightarrow> real" where
  "dot a b = sum_list (map2 (*) a b)"

definition l2_norm :: "real list \<Rightarrow> real" where
  "l2_norm a = sqrt (sum_list (map (\<lambda>x. x * x) a))"

definition cosine :: "real list \<Rightarrow> real list \<Rightarrow> number" where
  "cosine a b = js_div (dot a b) (l2_norm a * l2_norm b)"

section \<open>findSimilarDocuments\<close>

text \<open>A candidate document as \<open>findSimilarDocuments\<close> receives it, and the object
  \<open>{...doc, similarity}\<close> it builds: the document extended by one field.\<close>

record 'm document =
  id' :: string
  embedding :: "real list"
  metadata :: 'm

record 'm scored = "'m document" +
  similarity :: number

text \<open>\<open>documentEmbeddings.map(doc => ...)\<close>: the first call of
  \<open>calculateSimilarity\<close> that throws ends the whole operation.\<close>

fun similarities :: "real list \<Rightarrow> 'm document list \<Rightarrow> error + 'm scored list" where
  "similarities queryEmbedding [] = Inr []"
| "similarities queryEmbedding (doc # docs) =
     (case calculateSimilarity queryEmbedding (embedding doc) of
        Inl e \<Rightarrow> Inl e
      | Inr s \<Rightarrow>
          (case similarities queryEmbedding docs of
             Inl e \<Rightarrow> Inl e
           | Inr rest \<Rightarrow> Inr (document.extend doc (scored.fields s) # rest)))"

text \<open>The comparator \<open>(a, b) => b.similarity - a.similarity\<close>, and what the sort reads
  from it: \<open>a\<close> has to come after \<open>b\<close> exactly when the value is positive; a \<open>NaN\<close>
  counts as zero.\<close>

definition compareFn :: "'m scored \<Rightarrow> 'm scored \<Rightarrow> number" where
  "compareFn a b = js_sub (similarity b) (similarity a)"

fun positive :: "number \<Rightarrow> bool" where
  "positive NaN = False"
| "positive PosInf = True"
| "positive NegInf = False"
| "positive (Num x) = (0 < x)"

text \<open>\<open>Array.prototype.sort\<close> is stable (ECMAScript 2019), and on the entries that pass
  the filter the comparator is a consistent order, so the result does not depend on the
  engine's algorithm. Here an element is inserted in front of the first element it does
  not have to come after, so elements that compare equal keep their order.\<close>

fun sort_insert :: "('a \<Rightarrow> 'a \<Rightarrow> number) \<Rightarrow> 'a \<Rightarrow> 'a list \<Rightarrow> 'a list" where
  "sort_insert cmp x [] = [x]"
| "sort_insert cmp x (y # ys) =
     (if positive (cmp x y) then y # sort_insert cmp x ys else x # y # ys)"

definition js_sort :: "('a \<Rightarrow> 'a \<Rightarrow> number) \<Rightarrow> 'a list \<Rightarrow> 'a list" where
  "js_sort cmp xs = foldr (sort_insert cmp) xs []"

text \<open>\<open>slice(start, stop)\<close> on integral arguments: a negative index counts from the
  end, and both are clamped to the array.\<close>

definition js_slice :: "'a list \<Rightarrow> int \<Rightarrow> int \<Rightarrow> 'a list" where
  "js_slice xs start stop =
     (let len = int (length xs);
          from = (if start < 0 then max (len + start) 0 else min start len);
          to = (if stop < 0 then max (len + stop) 0 else min stop len)
      in take (nat (to - from)) (drop (nat from) xs))"

definition findSimilarDocuments ::
  "real list \<Rightarrow> 'm document list \<Rightarrow> number \<Rightarrow> int \<Rightarrow> error + 'm scored list" where
  "findSimilarDocuments queryEmbedding documentEmbeddings threshold limit =
     (case similarities queryEmbedding documentEmbeddings of
        Inl e \<Rightarrow> Inl e
      | Inr sims \<Rightarrow>
          Inr (js_slice (js_sort compareFn (filter (\<lambda>doc. js_ge (similarity doc) threshold) sims))
                 0 limit))"

text \<open>A document with its similarity to the query, as the specification words it.\<close>

definition with_similarity :: "real list \<Rightarrow> 'm document \<Rightarrow> 'm scored" where
  "with_similarity queryEmbedding doc =
     document.extend doc (scored.fields (cosine queryEmbedding (embedding doc)))"

section \<open>Text: preprocessText and chunkText\<close>

text \<open>A JavaScript string is a sequence of UTF-16 code units; \<open>utf16\<close> writes a literal of
  one-byte characters as such a sequence.\<close>

type_synonym jsstring = "nat list"

definition utf16 :: "string \<Rightarrow> jsstring" where
  "utf16 s = map of_char s"

text \<open>The class \<open>\s\<close>, which is also what \<open>trim\<close> removes: tab, line feed, vertical tab,
  form feed, carriage return, space, no-break space, U+1680, U+2000 to U+200A, the line
  and paragraph separators, U+202F, U+205F, U+3000 and U+FEFF.\<close>

definition is_space :: "nat \<Rightarrow> bool" where
  "is_space c \<longleftrightarrow>
     (9 \<le> c \<and> c \<le> 13) \<or> c = 32 \<or> c = 160 \<or> c = 5760 \<or> (8192 \<le> c \<and> c \<le> 8202) \<or>
     c = 8232 \<or> c = 8233 \<or> c = 8239 \<or> c = 8287 \<or> c = 12288 \<or> c = 65279"

text \<open>The class \<open>\w\<close>: digits, upper case letters, the underscore, lower case letters.\<close>

definition is_word :: "nat \<Rightarrow> bool" where
  "is_word c \<longleftrightarrow>
     (48 \<le> c \<and> c \<le> 57) \<or> (65 \<le> c \<and> c \<le> 90) \<or> c = 95 \<or> (97 \<le> c \<and> c \<le> 122)"

text \<open>What the class \<open>[^\w\s.,!?-]\<close> leaves out: word characters, whitespace, and the
  full stop, comma, exclamation mark, question mark and hyphen.\<close>

definition is_kept :: "nat \<Rightarrow> bool" where
  "is_kept c \<longleftrightarrow> is_word c \<or> is_space c \<or> c = 46 \<or> c = 44 \<or> c = 33 \<or> c = 63 \<or> c = 45"

text \<open>\<open>replace(/\s+/g, ' ')\<close>: every maximal run of whitespace becomes one space.\<close>

function normalize_whitespace :: "jsstring \<Rightarrow> jsstring" where
  "normalize_whitespace [] = []"
| "normalize_whitespace (c # cs) =
     (if is_space c then 32 # normalize_whitespace (dropWhile is_space cs)
      else c # normalize_whitespace cs)"
  by pat_completeness auto
termination
  by (relation "measure length") (auto simp: length_dropWhile_le le_imp_less_Suc)

text \<open>\<open>replace(/[^\w\s.,!?-]/g, '')\<close>\<close>

definition remove_special :: "jsstring \<Rightarrow> jsstring" where
  "remove_special s = filter is_kept s"

definition trim :: "jsstring \<Rightarrow> jsstring" where
  "trim s = rev (dropWhile is_space (rev (dropWhile is_space s)))"

definition preprocessText :: "jsstring \<Rightarrow> jsstring" where
  "preprocessText text =
     (let cleaned = trim (remove_special (normalize_whitespace text))
      in js_slice cleaned 0 4000)"

text \<open>\<open>split(/\s+/)\<close>: the pieces between the maximal runs of whitespace, an empty piece
  in front of a leading run and after a trailing one; \<open>word\<close> is the piece being read.\<close>

function split_from :: "jsstring \<Rightarrow> jsstring \<Rightarrow> jsstring list" where
  "split_from word [] = [word]"
| "split_from word (c # cs) =
     (if is_space c then word # split_from [] (dropWhile is_space cs)
      else split_from (word @ [c]) cs)"
  by pat_completeness auto
termination
  by (relation "measure (\<lambda>(word, s). length s)") (auto simp: length_dropWhile_le le_imp_less_Suc)

definition split_whitespace :: "jsstring \<Rightarrow> jsstring list" where
  "split_whitespace s = split_from [] s"

text \<open>\<open>join(' ')\<close>\<close>

fun join_space :: "jsstring list \<Rightarrow> jsstring" where
  "join_space [] = []"
| "join_space [w] = w"
| "join_space (w # ws) = w @ 32 # join_space ws"

text \<open>The loop of \<open>chunkText\<close>. Nothing in the source makes the step
  \<open>chunkSize - overlap\<close> positive, so the loop need not end: not returning is \<open>None\<close>.\<close>

partial_function (option) chunk_loop ::
  "jsstring list \<Rightarrow> int \<Rightarrow> int \<Rightarrow> int \<Rightarrow> jsstring list \<Rightarrow> jsstring list option" where
  "chunk_loop words chunkSize overlap i chunks =
     (if i < int (length words)
      then chunk_loop words chunkSize overlap (i + (chunkSize - overlap))
             (chunks @ [join_space (js_slice words i (i + chunkSize))])
      else Some chunks)"

declare chunk_loop.simps [code]

definition chunkText :: "jsstring \<Rightarrow> int \<Rightarrow> int \<Rightarrow> jsstring list option" where
  "chunkText text chunkSize overlap = chunk_loop (split_whitespace text) chunkSize overlap 0 []"

section \<open>The backend: initialize and generateEmbedding\<close>

text \<open>The extractor is an opaque callable: given the cleaned text it fails or returns
  the data of a tensor. \<open>pipeline\<close> is what the two acquisition requests of one call of
  \<open>initialize\<close> answer.\<close>

type_synonym extractor = "jsstring \<Rightarrow> error + real list"

datatype device = WebGPU | CPU

type_synonym pipeline = "device \<Rightarrow> error + extractor"

record service =
  extractor :: "extractor option"
  isInitialized :: bool

text \<open>\<open>initialize\<close> returns its outcome, the state it leaves and the acquisition requests
  it made, in order.\<close>

definition initialize :: "pipeline \<Rightarrow> service \<Rightarrow> (error + unit) \<times> service \<times> device list" where
  "initialize pipeline s =
     (if isInitialized s then (Inr (), s, [])
      else (case pipeline WebGPU of
              Inr ex \<Rightarrow> (Inr (), s\<lparr>extractor := Some ex, isInitialized := True\<rparr>, [WebGPU])
            | Inl error \<Rightarrow>
                (case pipeline CPU of
                   Inr ex \<Rightarrow>
                     (Inr (), s\<lparr>extractor := Some ex, isInitialized := True\<rparr>, [WebGPU, CPU])
                 | Inl cpuError \<Rightarrow> (Inl InitializationError, s, [WebGPU, CPU]))))"

text \<open>\<open>new Array(384).fill(0).map(() => Math.random() * 2 - 1)\<close>, where \<open>random k\<close> is
  the \<open>k\<close>-th draw of \<open>Math.random\<close>.\<close>

definition dummy_embedding :: "(nat \<Rightarrow> real) \<Rightarrow> real list" where
  "dummy_embedding random = map (\<lambda>k. random k * 2 - 1) [0..<384]"

text \<open>\<open>generateEmbedding\<close>: the call of \<open>initialize\<close> is in front of the \<open>try\<close> block,
  the call of the extractor inside it. Calling an extractor that is still \<open>null\<close> throws
  inside the block as well.\<close>

definition generateEmbedding ::
  "pipeline \<Rightarrow> (nat \<Rightarrow> real) \<Rightarrow> jsstring \<Rightarrow> service \<Rightarrow> (error + real list) \<times> service" where
  "generateEmbedding pipeline random text s =
     (case (if \<not> isInitialized s then initialize pipeline s else (Inr (), s, [])) of
        (Inl e, s', _) \<Rightarrow> (Inl e, s')
      | (Inr _, s', _) \<Rightarrow>
          (let cleanText = preprocessText text
           in case extractor s' of
                None \<Rightarrow> (Inr (dummy_embedding random), s')
              | Some ex \<Rightarrow>
                  (case ex cleanText of
                     Inl error \<Rightarrow> (Inr (dummy_embedding random), s')
                   | Inr result \<Rightarrow> (Inr result, s'))))"

text \<open>The call of the extractor inside the \<open>try\<close> block throws: there is no
  extractor, or it fails on the cleaned text.\<close>

definition extraction_fails :: "service \<Rightarrow> jsstring \<Rightarrow> bool" where
  "extraction_fails s text =
     (case extractor s of
        None \<Rightarrow> True
      | Some ex \<Rightarrow> (case ex (preprocessText text) of Inl error \<Rightarrow> True | Inr result \<Rightarrow> False))"

section \<open>Properties of calculateSimilarity\<close>

lemma similarity_loop_sums:
  "length e1 = length e2 \<Longrightarrow> i \<le> length e1 \<Longrightarrow>
   similarity_loop e1 e2 i d n1 n2 =
     (d + sum_list (map2 (*) (drop i e1) (drop i e2)),
      n1 + sum_list (map (\<lambda>x. x * x) (drop i e1)),
      n2 + sum_list (map (\<lambda>x. x * x) (drop i e2)))"
proof (induction e1 e2 i d n1 n2 rule: similarity_loop.induct)
  case (1 e1 e2 i d n1 n2)
  show ?case
  proof (cases "i < length e1")
    case True
    then have d1: "drop i e1 = e1 ! i # drop (Suc i) e1"
      by (simp add: Cons_nth_drop_Suc)
    from True "1.prems" have d2: "drop i e2 = e2 ! i # drop (Suc i) e2"
      by (simp add: Cons_nth_drop_Suc)
    from True "1.prems" have
      "similarity_loop e1 e2 (i + 1) (d + e1 ! i * e2 ! i) (n1 + e1 ! i * e1 ! i)
         (n2 + e2 ! i * e2 ! i) =
       (d + e1 ! i * e2 ! i + sum_list (map2 (*) (drop (i + 1) e1) (drop (i + 1) e2)),
        n1 + e1 ! i * e1 ! i + sum_list (map (\<lambda>x. x * x) (drop (i + 1) e1)),
        n2 + e2 ! i * e2 ! i + sum_list (map (\<lambda>x. x * x) (drop (i + 1) e2)))"
      by (intro "1.IH") simp_all
    with True show ?thesis
      by (subst similarity_loop.simps) (simp add: d1 d2)
  next
    case False
    with "1.prems" show ?thesis
      by (subst similarity_loop.simps) simp
  qed
qed

lemma calculateSimilarity_cosine:
  "length a = length b \<Longrightarrow> calculateSimilarity a b = Inr (cosine a b)"
  by (simp add: calculateSimilarity_def similarity_loop_sums cosine_def dot_def l2_norm_def)

lemma dot_commute: "length a = length b \<Longrightarrow> dot a b = dot b a"
  unfolding dot_def by (induction a b rule: list_induct2) (simp_all add: mult.commute)

lemma sum_squares_nonneg: "0 \<le> sum_list (map (\<lambda>x. x * x) (a :: real list))"
  by (induction a) simp_all

lemma sum_squares_zero_iff:
  "sum_list (map (\<lambda>x. x * x) (a :: real list)) = 0 \<longleftrightarrow> (\<forall>x \<in> set a. x = 0)"
proof (induction a)
  case Nil
  show ?case by simp
next
  case (Cons x a)
  have "x * x + sum_list (map (\<lambda>x. x * x) a) = 0 \<longleftrightarrow>
        x * x = 0 \<and> sum_list (map (\<lambda>x. x * x) a) = 0"
    using sum_squares_nonneg [of a] by (intro add_nonneg_eq_0_iff) simp_all
  with Cons show ?case by simp
qed

lemma l2_norm_zero_iff: "l2_norm a = 0 \<longleftrightarrow> (\<forall>x \<in> set a. x = 0)"
  by (simp add: l2_norm_def sum_squares_zero_iff)

lemma dot_zero_left: "\<forall>x \<in> set a. x = 0 \<Longrightarrow> dot a b = 0"
  unfolding dot_def
proof (induction a arbitrary: b)
  case Nil
  show ?case by simp
next
  case (Cons x a)
  then show ?case by (cases b) simp_all
qed

lemma calculateSimilarity_NaN_iff:
  "calculateSimilarity a b = Inr NaN \<longleftrightarrow>
     length a = length b \<and> ((\<forall>x \<in> set a. x = 0) \<or> (\<forall>x \<in> set b. x = 0))"
proof (cases "length a = length b")
  case False
  then show ?thesis by (simp add: calculateSimilarity_def)
next
  case True
  have "cosine a b = NaN \<longleftrightarrow> l2_norm a = 0 \<or> l2_norm b = 0"
  proof
    assume "cosine a b = NaN"
    then show "l2_norm a = 0 \<or> l2_norm b = 0"
      by (simp add: cosine_def js_div_def split: if_splits)
  next
    assume z: "l2_norm a = 0 \<or> l2_norm b = 0"
    then have "dot a b = 0"
      using dot_zero_left [of a b] dot_zero_left [of b a] dot_commute [OF True]
      by (auto simp: l2_norm_zero_iff)
    with z show "cosine a b = NaN"
      by (auto simp: cosine_def js_div_def)
  qed
  with True show ?thesis
    by (simp add: calculateSimilarity_cosine l2_norm_zero_iff)
qed

text \<open>Claim C3: \<open>calculateSimilarity a b\<close> fails with the dimension mismatch error
  when the lengths differ, as it does on \<open>[1, 0]\<close> and \<open>[1, 0, 0]\<close>; on equal lengths it
  returns the dot product divided by the product of the Euclidean norms, with nothing
  special for a zero vector: the division \<open>0 / 0\<close> then gives \<open>NaN\<close>.\<close>

theorem calculateSimilarity_spec:
  "(length a \<noteq> length b \<longrightarrow> calculateSimilarity a b = Inl DimensionMismatchError) \<and>
   (length a = length b \<longrightarrow> calculateSimilarity a b = Inr (cosine a b)) \<and>
   (length a = length b \<longrightarrow> (\<forall>x \<in> set a. x = 0) \<or> (\<forall>x \<in> set b. x = 0) \<longrightarrow>
      calculateSimilarity a b = Inr NaN) \<and>
   calculateSimilarity [1, 0] [1, 0, 0] = Inl DimensionMismatchError"
proof (intro conjI impI)
  show "calculateSimilarity a b = Inl DimensionMismatchError" if "length a \<noteq> length b"
    using that by (simp add: calculateSimilarity_def)
  show "calculateSimilarity a b = Inr (cosine a b)" if "length a = length b"
    using that by (rule calculateSimilarity_cosine)
  show "calculateSimilarity a b = Inr NaN"
    if "length a = length b" "(\<forall>x \<in> set a. x = 0) \<or> (\<forall>x \<in> set b. x = 0)"
    using that by (simp add: calculateSimilarity_NaN_iff)
  show "calculateSimilarity [1, 0] [1, 0, 0] = Inl DimensionMismatchError"
    by (simp add: calculateSimilarity_def)
qed

theorem calculateSimilarity_spec_witness:
  "length [1, 0 :: real] \<noteq> length [1, 0, 0 :: real] \<and>
   calculateSimilarity [1, 0] [1, 0, 0] = Inl DimensionMismatchError \<and>
   length [3, 4 :: real] = length [4, 3 :: real] \<and>
   calculateSimilarity [3, 4] [4, 3] = Inr (Num (24 / 25)) \<and>
   length [0, 0 :: real] = length [4, 3 :: real] \<and> set [0, 0 :: real] = {0} \<and>
   calculateSimilarity [0, 0] [4, 3] = Inr NaN"
  using calculateSimilarity_spec [of "[1, 0]" "[1, 0, 0]"]
    calculateSimilarity_spec [of "[3, 4]" "[4, 3]"]
    calculateSimilarity_spec [of "[0, 0]" "[4, 3]"]
  by (simp add: cosine_def dot_def l2_norm_def js_div_def)

text \<open>Claim C7: on vectors of equal length \<open>calculateSimilarity\<close> is symmetric.\<close>

theorem calculateSimilarity_symmetric:
  "length a = length b \<Longrightarrow> calculateSimilarity a b = calculateSimilarity b a"
  by (simp add: calculateSimilarity_cosine cosine_def dot_commute mult.commute)

theorem calculateSimilarity_symmetric_witness:
  "length [3, 4 :: real] = length [4, 3 :: real] \<and>
   calculateSimilarity [3, 4] [4, 3] = calculateSimilarity [4, 3] [3, 4]"
  using calculateSimilarity_symmetric [of "[3, 4]" "[4, 3]"] by simp



section \<open>Properties of initialize and generateEmbedding\<close>

text \<open>Claim C6: \<open>initialize\<close> on an initialized service returns at once, with the
  state as it was and no acquisition requested; when both acquisitions fail it fails with
  the initialization error and leaves the state as it was, uninitialized, so that the next
  call requests the accelerated backend again; and after a call that succeeded every
  later call returns at once.\<close>

theorem initialize_idempotent:
  "(isInitialized s \<longrightarrow> initialize pipeline s = (Inr (), s, [])) \<and>
   (\<not> isInitialized s \<and> (\<exists>e. pipeline WebGPU = Inl e) \<and> (\<exists>e. pipeline CPU = Inl e) \<longrightarrow>
      initialize pipeline s = (Inl InitializationError, s, [WebGPU, CPU])) \<and>
   (\<not> isInitialized s \<longrightarrow> (\<exists>rest. snd (snd (initialize pipeline s)) = WebGPU # rest)) \<and>
   (fst (initialize pipeline s) = Inr () \<longrightarrow>
      isInitialized (fst (snd (initialize pipeline s))) \<and>
      (\<forall>pipeline'. initialize pipeline' (fst (snd (initialize pipeline s))) =
         (Inr (), fst (snd (initialize pipeline s)), [])))"
  by (auto simp: initialize_def split: sum.splits)

theorem initialize_idempotent_witness:
  "isInitialized \<lparr>extractor = Some (\<lambda>t. Inr [1]), isInitialized = True\<rparr> \<and>
   initialize (\<lambda>d. Inl BackendError) \<lparr>extractor = Some (\<lambda>t. Inr [1]), isInitialized = True\<rparr> =
     (Inr (), \<lparr>extractor = Some (\<lambda>t. Inr [1]), isInitialized = True\<rparr>, []) \<and>
   \<not> isInitialized \<lparr>extractor = None, isInitialized = False\<rparr> \<and>
   initialize (\<lambda>d. Inl BackendError) \<lparr>extractor = None, isInitialized = False\<rparr> =
     (Inl InitializationError, \<lparr>extractor = None, isInitialized = False\<rparr>, [WebGPU, CPU]) \<and>
   fst (initialize (\<lambda>d. if d = CPU then Inr (\<lambda>t. Inr [1]) else Inl BackendError)
          \<lparr>extractor = None, isInitialized = False\<rparr>) = Inr () \<and>
   initialize (\<lambda>d. Inl BackendError)
     (fst (snd (initialize (\<lambda>d. if d = CPU then Inr (\<lambda>t. Inr [1]) else Inl BackendError)
        \<lparr>extractor = None, isInitialized = False\<rparr>))) =
     (Inr (), \<lparr>extractor = Some (\<lambda>t. Inr [1]), isInitialized = True\<rparr>, [])"
  using initialize_idempotent [of "\<lparr>extractor = Some (\<lambda>t. Inr [1]), isInitialized = True\<rparr>" "\<lambda>d. Inl BackendError"]
    initialize_idempotent [of "\<lparr>extractor = None, isInitialized = False\<rparr>" "\<lambda>d. Inl BackendError"]
    initialize_idempotent [of "\<lparr>extractor = None, isInitialized = False\<rparr>"
      "\<lambda>d. if d = CPU then Inr (\<lambda>t. Inr [1]) else Inl BackendError"]
  by (simp add: initialize_def)

lemma dummy_embedding_range:
  assumes "\<forall>k. 0 \<le> random k \<and> random k < 1"
  shows "length (dummy_embedding random) = 384 \<and>
         (\<forall>x \<in> set (dummy_embedding random). - 1 \<le> x \<and> x < 1)"
proof -
  have "- 1 \<le> random k * 2 - 1 \<and> random k * 2 - 1 < 1" for k
    using assms [rule_format, of k] by simp
  then show ?thesis by (auto simp: dummy_embedding_def)
qed

text \<open>Claim C1, as stated, fails where the backend cannot be acquired: \<open>initialize\<close> is
  called in front of the \<open>try\<close> block, so its error leaves \<open>generateEmbedding\<close>.\<close>

theorem generateEmbedding_counterexample:
  "generateEmbedding (\<lambda>d. Inl BackendError) (\<lambda>k. 0) (utf16 ''abc'')
     \<lparr>extractor = None, isInitialized = False\<rparr> =
   (Inl InitializationError, \<lparr>extractor = None, isInitialized = False\<rparr>)"
  by (simp add: generateEmbedding_def initialize_def)

text \<open>Claim C1, amended: with every draw of \<open>Math.random\<close> in \<open>[0, 1)\<close>, a call of
  \<open>generateEmbedding\<close> on a service that is not initialized and cannot acquire a backend
  fails with the initialization error; once the service is initialized (before the call,
  or by it), a failing extractor call does not raise: the result is a vector of 384
  components, each at least \<open>-1\<close> and less than \<open>1\<close>.\<close>

theorem generateEmbedding_failure_policy:
  assumes "\<forall>k. 0 \<le> random k \<and> random k < 1"
  shows
   "(\<not> isInitialized s \<and> (\<exists>e. pipeline WebGPU = Inl e) \<and> (\<exists>e. pipeline CPU = Inl e) \<longrightarrow>
      generateEmbedding pipeline random text s = (Inl InitializationError, s)) \<and>
    (isInitialized s \<and> extraction_fails s text \<longrightarrow>
      (\<exists>v. generateEmbedding pipeline random text s = (Inr v, s) \<and> length v = 384 \<and>
           (\<forall>x \<in> set v. - 1 \<le> x \<and> x < 1))) \<and>
    (\<forall>s' requests. \<not> isInitialized s \<and> initialize pipeline s = (Inr (), s', requests) \<and>
       extraction_fails s' text \<longrightarrow>
      (\<exists>v. generateEmbedding pipeline random text s = (Inr v, s') \<and> length v = 384 \<and>
           (\<forall>x \<in> set v. - 1 \<le> x \<and> x < 1)))"
proof (intro conjI impI allI)
  assume "\<not> isInitialized s \<and> (\<exists>e. pipeline WebGPU = Inl e) \<and> (\<exists>e. pipeline CPU = Inl e)"
  then show "generateEmbedding pipeline random text s = (Inl InitializationError, s)"
    by (auto simp: generateEmbedding_def initialize_def)
next
  assume "isInitialized s \<and> extraction_fails s text"
  then have "generateEmbedding pipeline random text s = (Inr (dummy_embedding random), s)"
    by (auto simp: generateEmbedding_def extraction_fails_def split: option.splits sum.splits)
  with dummy_embedding_range [OF assms]
  show "\<exists>v. generateEmbedding pipeline random text s = (Inr v, s) \<and> length v = 384 \<and>
           (\<forall>x \<in> set v. - 1 \<le> x \<and> x < 1)"
    by blast
next
  fix s' requests
  assume "\<not> isInitialized s \<and> initialize pipeline s = (Inr (), s', requests) \<and>
       extraction_fails s' text"
  then have "generateEmbedding pipeline random text s = (Inr (dummy_embedding random), s')"
    by (auto simp: generateEmbedding_def extraction_fails_def split: option.splits sum.splits)
  with dummy_embedding_range [OF assms]
  show "\<exists>v. generateEmbedding pipeline random text s = (Inr v, s') \<and> length v = 384 \<and>
           (\<forall>x \<in> set v. - 1 \<le> x \<and> x < 1)"
    by blast
qed

theorem generateEmbedding_failure_policy_witness:
  "generateEmbedding (\<lambda>d. Inl BackendError) (\<lambda>k. 1 / 2) (utf16 ''abc'')
     \<lparr>extractor = None, isInitialized = False\<rparr> =
     (Inl InitializationError, \<lparr>extractor = None, isInitialized = False\<rparr>) \<and>
   (\<exists>v. generateEmbedding (\<lambda>d. Inl BackendError) (\<lambda>k. 1 / 2) (utf16 ''abc'')
          \<lparr>extractor = Some (\<lambda>t. Inl BackendError), isInitialized = True\<rparr> =
        (Inr v, \<lparr>extractor = Some (\<lambda>t. Inl BackendError), isInitialized = True\<rparr>) \<and>
        length v = 384 \<and> (\<forall>x \<in> set v. - 1 \<le> x \<and> x < 1)) \<and>
   (\<exists>v. generateEmbedding (\<lambda>d. Inr (\<lambda>t. Inl BackendError)) (\<lambda>k. 1 / 2) (utf16 ''abc'')
          \<lparr>extractor = None, isInitialized = False\<rparr> =
        (Inr v, \<lparr>extractor = Some (\<lambda>t. Inl BackendError), isInitialized = True\<rparr>) \<and>
        length v = 384 \<and> (\<forall>x \<in> set v. - 1 \<le> x \<and> x < 1))"
proof -
  have r: "\<forall>k :: nat. (0 :: real) \<le> 1 / 2 \<and> (1 :: real) / 2 < 1" by simp
  show ?thesis
    using generateEmbedding_failure_policy [OF r, of "\<lparr>extractor = None, isInitialized = False\<rparr>"
        "\<lambda>d. Inl BackendError" "utf16 ''abc''"]
      generateEmbedding_failure_policy [OF r,
        of "\<lparr>extractor = Some (\<lambda>t. Inl BackendError), isInitialized = True\<rparr>"
        "\<lambda>d. Inl BackendError" "utf16 ''abc''"]
      generateEmbedding_failure_policy [OF r, of "\<lparr>extractor = None, isInitialized = False\<rparr>"
        "\<lambda>d. Inr (\<lambda>t. Inl BackendError)" "utf16 ''abc''"]
    by (simp add: initialize_def extraction_fails_def)
qed

section \<open>Properties of findSimilarDocuments\<close>

lemma similarities_result:
  "similarities q docs =
     (if \<forall>d \<in> set docs. length (embedding d) = length q
      then Inr (map (with_similarity q) docs) else Inl DimensionMismatchError)"
proof (induction docs)
  case Nil
  show ?case by simp
next
  case (Cons d docs)
  show ?case
  proof (cases "length q = length (embedding d)")
    case True
    with Cons show ?thesis
      by (simp add: calculateSimilarity_cosine with_similarity_def)
  next
    case False
    then have "calculateSimilarity q (embedding d) = Inl DimensionMismatchError"
      by (simp add: calculateSimilarity_def)
    with False show ?thesis by auto
  qed
qed

lemma similarity_with_similarity [simp]:
  "similarity (with_similarity q d) = cosine q (embedding d)"
  by (simp add: with_similarity_def document.extend_def scored.fields_def)

lemma js_ge_not_NaN: "js_ge x y \<Longrightarrow> x \<noteq> NaN \<and> y \<noteq> NaN"
  by (cases x; cases y) simp_all

lemma js_ge_trans: "js_ge x y \<Longrightarrow> js_ge y z \<Longrightarrow> js_ge x z"
  by (cases x; cases y; cases z) simp_all

lemma positive_sub_ge: "positive (js_sub y x) \<Longrightarrow> js_ge y x"
  by (cases x; cases y) simp_all

lemma not_positive_sub_ge: "x \<noteq> NaN \<Longrightarrow> y \<noteq> NaN \<Longrightarrow> \<not> positive (js_sub y x) \<Longrightarrow> js_ge x y"
  by (cases x; cases y) simp_all

lemma not_positive_sub_self: "\<not> positive (js_sub x x)"
  by (cases x) simp_all

lemma set_sort_insert: "set (sort_insert cmp x ys) = insert x (set ys)"
  by (induction ys) auto

lemma set_js_sort: "set (js_sort cmp xs) = set xs"
  by (induction xs) (simp_all add: js_sort_def set_sort_insert)

lemma sorted_sort_insert:
  assumes "sorted_wrt (\<lambda>a b. js_ge (similarity a) (similarity b)) ys"
    and "similarity x \<noteq> NaN" and "\<forall>y \<in> set ys. similarity y \<noteq> NaN"
  shows "sorted_wrt (\<lambda>a b. js_ge (similarity a) (similarity b)) (sort_insert compareFn x ys)"
  using assms
proof (induction ys)
  case Nil
  show ?case by simp
next
  case (Cons y ys)
  show ?case
  proof (cases "positive (compareFn x y)")
    case True
    then have "js_ge (similarity y) (similarity x)"
      by (simp add: compareFn_def positive_sub_ge)
    with True Cons show ?thesis
      by (auto simp: set_sort_insert)
  next
    case False
    with Cons.prems have xy: "js_ge (similarity x) (similarity y)"
      by (simp add: compareFn_def not_positive_sub_ge)
    with Cons.prems have "\<forall>z \<in> set ys. js_ge (similarity x) (similarity z)"
      by (auto intro: js_ge_trans)
    with False xy Cons.prems show ?thesis by simp
  qed
qed

lemma sorted_js_sort:
  "\<forall>x \<in> set xs. similarity x \<noteq> NaN \<Longrightarrow>
   sorted_wrt (\<lambda>a b. js_ge (similarity a) (similarity b)) (js_sort compareFn xs)"
proof (induction xs)
  case Nil
  show ?case by (simp add: js_sort_def)
next
  case (Cons x xs)
  then have "sorted_wrt (\<lambda>a b. js_ge (similarity a) (similarity b))
               (sort_insert compareFn x (js_sort compareFn xs))"
    by (intro sorted_sort_insert) (simp_all add: set_js_sort)
  then show ?case by (simp add: js_sort_def)
qed

lemma filter_sort_insert:
  "\<forall>y \<in> set ys. P x \<and> P y \<longrightarrow> \<not> positive (cmp x y) \<Longrightarrow>
   filter P (sort_insert cmp x ys) = filter P (x # ys)"
  by (induction ys) auto

lemma js_sort_stable:
  "filter (\<lambda>r. similarity r = k) (js_sort compareFn xs) = filter (\<lambda>r. similarity r = k) xs"
proof (induction xs)
  case Nil
  show ?case by (simp add: js_sort_def)
next
  case (Cons x xs)
  have "filter (\<lambda>r. similarity r = k) (sort_insert compareFn x (js_sort compareFn xs)) =
        filter (\<lambda>r. similarity r = k) (x # js_sort compareFn xs)"
    by (rule filter_sort_insert) (simp add: compareFn_def not_positive_sub_self)
  with Cons show ?case by (simp add: js_sort_def)
qed

lemma js_slice_from_0:
  "js_slice xs 0 stop =
     take (nat (if stop < 0 then int (length xs) + stop else stop)) xs"
  by (auto simp: js_slice_def Let_def max_def min_def)

lemma prefix_filter_take: "prefix (filter P (take n xs)) (filter P xs)"
proof -
  have "filter P xs = filter P (take n xs) @ filter P (drop n xs)"
    by (metis append_take_drop_id filter_append)
  then show ?thesis by (simp add: prefix_def)
qed

lemma prefix_filter_threshold:
  "prefix (filter (\<lambda>r. similarity r = k) (filter (\<lambda>r. js_ge (similarity r) t) xs))
     (filter (\<lambda>r. similarity r = k) xs)"
proof (cases "js_ge k t")
  case True
  then have "filter (\<lambda>r. similarity r = k) (filter (\<lambda>r. js_ge (similarity r) t) xs) =
             filter (\<lambda>r. similarity r = k) xs"
    by (auto simp: filter_filter intro: filter_cong)
  then show ?thesis by simp
next
  case False
  then have "filter (\<lambda>r. similarity r = k) (filter (\<lambda>r. js_ge (similarity r) t) xs) = []"
    by (auto simp: filter_filter filter_empty_conv)
  then show ?thesis by simp
qed

lemma findSimilarDocuments_result:
  "findSimilarDocuments q docs t l =
     (if \<forall>d \<in> set docs. length (embedding d) = length q
      then Inr (js_slice (js_sort compareFn
             (filter (\<lambda>r. js_ge (similarity r) t) (map (with_similarity q) docs))) 0 l)
      else Inl DimensionMismatchError)"
  by (simp add: findSimilarDocuments_def similarities_result)

text \<open>Claim C2, as stated, fails for a negative limit: \<open>slice(0, -1)\<close> drops the last
  entry only, so two matching documents and the limit \<open>-1\<close> give one entry.\<close>

theorem findSimilarDocuments_limit_counterexample:
  "findSimilarDocuments [1]
     [\<lparr>id' = ''a'', embedding = [1], metadata = ()\<rparr>, \<lparr>id' = ''b'', embedding = [1], metadata = ()\<rparr>]
     (Num (1 / 2)) (- 1) =
   Inr [\<lparr>id' = ''a'', embedding = [1], metadata = (), similarity = Num 1\<rparr>] \<and>
   \<not> int (length [\<lparr>id' = ''a'', embedding = [1], metadata = (), similarity = Num 1\<rparr>]) \<le> - 1"
  by (simp add: findSimilarDocuments_result with_similarity_def document.extend_def
      scored.fields_def cosine_def dot_def l2_norm_def js_div_def js_sort_def compareFn_def
      js_slice_def)

text \<open>Claim C2, amended: \<open>findSimilarDocuments\<close> fails only on a document whose
  dimension differs from the query's; otherwise every entry it returns is a document of
  the input with its similarity, that similarity is at least the threshold, the entries
  are in descending order of similarity, entries of equal similarity are in the order of
  the input, and for a limit that is not negative there are at most \<open>limit\<close> entries.\<close>

theorem findSimilarDocuments_ranking:
  "(case findSimilarDocuments q docs threshold limit of
      Inl e \<Rightarrow> e = DimensionMismatchError \<and> (\<exists>d \<in> set docs. length (embedding d) \<noteq> length q)
    | Inr res \<Rightarrow>
        set res \<subseteq> set (map (with_similarity q) docs) \<and>
        (\<forall>r \<in> set res. js_ge (similarity r) threshold) \<and>
        (0 \<le> limit \<longrightarrow> int (length res) \<le> limit) \<and>
        sorted_wrt (\<lambda>a b. js_ge (similarity a) (similarity b)) res \<and>
        (\<forall>k. prefix (filter (\<lambda>r. similarity r = k) res)
               (filter (\<lambda>r. similarity r = k) (map (with_similarity q) docs))))"
proof (cases "\<forall>d \<in> set docs. length (embedding d) = length q")
  case False
  then show ?thesis by (auto simp: findSimilarDocuments_result)
next
  case True
  define sims where "sims = map (with_similarity q) docs"
  define kept where "kept = filter (\<lambda>r. js_ge (similarity r) threshold) sims"
  define ranked where "ranked = js_sort compareFn kept"
  define n where "n = nat (if limit < 0 then int (length ranked) + limit else limit)"
  define res where "res = take n ranked"
  have res: "findSimilarDocuments q docs threshold limit = Inr res"
    using True
    by (simp add: findSimilarDocuments_result res_def n_def ranked_def kept_def sims_def
        js_slice_from_0)
  have sub: "set res \<subseteq> set kept"
    using set_take_subset [of n ranked] by (simp add: res_def ranked_def set_js_sort)
  have 1: "set res \<subseteq> set sims"
    using sub by (auto simp: kept_def)
  have 2: "\<forall>r \<in> set res. js_ge (similarity r) threshold"
    using sub by (auto simp: kept_def)
  have 3: "0 \<le> limit \<longrightarrow> int (length res) \<le> limit"
    by (auto simp: res_def n_def)
  have "\<forall>r \<in> set kept. similarity r \<noteq> NaN"
    by (auto simp: kept_def dest: js_ge_not_NaN)
  then have "sorted_wrt (\<lambda>a b. js_ge (similarity a) (similarity b)) ranked"
    unfolding ranked_def by (rule sorted_js_sort)
  then have 4: "sorted_wrt (\<lambda>a b. js_ge (similarity a) (similarity b)) res"
    unfolding res_def by (rule sorted_wrt_take)
  have 5: "prefix (filter (\<lambda>r. similarity r = k) res) (filter (\<lambda>r. similarity r = k) sims)" for k
  proof -
    have "prefix (filter (\<lambda>r. similarity r = k) res) (filter (\<lambda>r. similarity r = k) ranked)"
      unfolding res_def by (rule prefix_filter_take)
    also have "filter (\<lambda>r. similarity r = k) ranked = filter (\<lambda>r. similarity r = k) kept"
      unfolding ranked_def by (rule js_sort_stable)
    also have "prefix \<dots> (filter (\<lambda>r. similarity r = k) sims)"
      unfolding kept_def by (rule prefix_filter_threshold)
    finally show ?thesis .
  qed
  from 1 2 3 4 5 show ?thesis
    unfolding res sims_def by simp
qed

theorem findSimilarDocuments_ranking_witness:
  "findSimilarDocuments [1, 0]
     [\<lparr>id' = ''a'', embedding = [0, 1], metadata = ()\<rparr>,
      \<lparr>id' = ''b'', embedding = [2, 0], metadata = ()\<rparr>,
      \<lparr>id' = ''c'', embedding = [1, 0], metadata = ()\<rparr>,
      \<lparr>id' = ''d'', embedding = [0, 0], metadata = ()\<rparr>]
     (Num (1 / 2)) 5 =
   Inr [\<lparr>id' = ''b'', embedding = [2, 0], metadata = (), similarity = Num 1\<rparr>,
        \<lparr>id' = ''c'', embedding = [1, 0], metadata = (), similarity = Num 1\<rparr>] \<and>
   (0 :: int) \<le> 5 \<and>
   js_ge (Num 1) (Num (1 / 2)) \<and>
   findSimilarDocuments [1, 0] [\<lparr>id' = ''e'', embedding = [1], metadata = ()\<rparr>] (Num (1 / 2)) 5 =
     Inl DimensionMismatchError"
  using findSimilarDocuments_ranking [where q = "[1, 0]" and docs =
      "[\<lparr>id' = ''a'', embedding = [0, 1], metadata = ()\<rparr>,
        \<lparr>id' = ''b'', embedding = [2, 0], metadata = ()\<rparr>,
        \<lparr>id' = ''c'', embedding = [1, 0], metadata = ()\<rparr>,
        \<lparr>id' = ''d'', embedding = [0, 0], metadata = ()\<rparr>]" and threshold = "Num (1 / 2)"
      and limit = 5]
    findSimilarDocuments_ranking [where q = "[1, 0]" and docs =
      "[\<lparr>id' = ''e'', embedding = [1], metadata = ()\<rparr>]" and threshold = "Num (1 / 2)"
      and limit = 5]
  by (simp add: findSimilarDocuments_result with_similarity_def document.extend_def
      scored.fields_def cosine_def dot_def l2_norm_def js_div_def js_sort_def compareFn_def
      js_slice_def)



section \<open>Properties of chunkText\<close>

lemma js_slice_window:
  "0 \<le> i \<Longrightarrow> 0 \<le> n \<Longrightarrow> js_slice xs i (i + n) = take (nat n) (drop (nat i) xs)"
  by (auto simp: js_slice_def Let_def min_def max_def)

lemma chunk_index_less:
  "0 < s \<Longrightarrow> k < (n + s - 1) div s \<longleftrightarrow> k * s < (n :: nat)"
proof -
  assume s: "0 < s"
  have "k < (n + s - 1) div s \<longleftrightarrow> Suc k \<le> (n + s - 1) div s" by auto
  also have "\<dots> \<longleftrightarrow> Suc k * s \<le> n + s - 1"
    using s by (simp only: less_eq_div_iff_mult_less_eq)
  also have "\<dots> \<longleftrightarrow> k * s < n" using s by auto
  finally show ?thesis .
qed

lemma chunk_loop_steps:
  assumes "0 < chunkSize" and "overlap < chunkSize"
  shows "chunk_loop words chunkSize overlap (int (k * nat (chunkSize - overlap))) chunks =
     Some (chunks @
       map (\<lambda>j. join_space (take (nat chunkSize) (drop (j * nat (chunkSize - overlap)) words)))
         [k..<(length words + nat (chunkSize - overlap) - 1) div nat (chunkSize - overlap)])"
proof -
  define s where "s = nat (chunkSize - overlap)"
  define m where "m = (length words + s - 1) div s"
  have s: "0 < s" "int s = chunkSize - overlap"
    using assms by (simp_all add: s_def)
  have "chunk_loop words chunkSize overlap (int (k * s)) chunks =
     Some (chunks @ map (\<lambda>j. join_space (take (nat chunkSize) (drop (j * s) words))) [k..<m])"
  proof (induction "m - k" arbitrary: k chunks)
    case 0
    then have "\<not> k < m" by simp
    then have "\<not> k * s < length words"
      using chunk_index_less [OF s(1), of k "length words"] by (simp add: m_def)
    then have stop: "\<not> int (k * s) < int (length words)"
      by (simp only: of_nat_less_iff not_False_eq_True)
    from \<open>\<not> k < m\<close> have "[k..<m] = []" by simp
    then show ?case
      by (subst chunk_loop.simps) (simp only: stop if_False list.map append_Nil2)
  next
    case (Suc d)
    then have km: "k < m" by simp
    then have lt: "k * s < length words"
      using chunk_index_less [OF s(1), of k "length words"] by (simp add: m_def)
    have next_i: "int (k * s) + (chunkSize - overlap) = int (Suc k * s)"
      using s(2) by (simp add: algebra_simps)
    have slice: "js_slice words (int (k * s)) (int (k * s) + chunkSize) =
                 take (nat chunkSize) (drop (k * s) words)"
      using assms(1) js_slice_window [of "int (k * s)" chunkSize words]
      by (simp only: nat_int of_nat_0_le_iff less_imp_le)
    from Suc have "d = m - Suc k" by simp
    then have IH: "chunk_loop words chunkSize overlap (int (Suc k * s)) cs =
       Some (cs @ map (\<lambda>j. join_space (take (nat chunkSize) (drop (j * s) words))) [Suc k..<m])"
      for cs
      by (rule Suc.hyps(1))
    have "chunk_loop words chunkSize overlap (int (k * s)) chunks =
          chunk_loop words chunkSize overlap (int (Suc k * s))
            (chunks @ [join_space (take (nat chunkSize) (drop (k * s) words))])"
      using lt by (subst chunk_loop.simps) (simp only: next_i slice of_nat_less_iff if_True)
    also have "\<dots> = Some (chunks @
        map (\<lambda>j. join_space (take (nat chunkSize) (drop (j * s) words))) [k..<m])"
      using km by (subst IH) (simp add: upt_conv_Cons)
    finally show ?case .
  qed
  then show ?thesis by (simp add: s_def m_def)
qed

text \<open>Claim C4: for \<open>0 \<le> overlap < chunkSize\<close> the loop of \<open>chunkText\<close> ends and
  returns a list of chunks; there is a \<open>k\<close>-th chunk exactly when the start index
  \<open>k * (chunkSize - overlap)\<close> is below the number of words, and it is the at most
  \<open>chunkSize\<close> words from that index on, joined by single spaces. In particular
  \<open>chunkText("w1 w2 w3 w4 w5", 3, 1)\<close> is \<open>["w1 w2 w3", "w3 w4 w5", "w5"]\<close>.\<close>

theorem chunkText_chunks:
  "(0 \<le> overlap \<and> overlap < chunkSize \<longrightarrow>
     (\<exists>chunks. chunkText input chunkSize overlap = Some chunks \<and>
        (\<forall>k. k < length chunks \<longleftrightarrow>
              k * nat (chunkSize - overlap) < length (split_whitespace input)) \<and>
        (\<forall>k < length chunks. chunks ! k =
           join_space (take (nat chunkSize)
             (drop (k * nat (chunkSize - overlap)) (split_whitespace input)))))) \<and>
   chunkText (utf16 ''w1 w2 w3 w4 w5'') 3 1 =
     Some [utf16 ''w1 w2 w3'', utf16 ''w3 w4 w5'', utf16 ''w5'']"
proof (intro conjI impI)
  assume h: "0 \<le> overlap \<and> overlap < chunkSize"
  define words where "words = split_whitespace input"
  define s where "s = nat (chunkSize - overlap)"
  define m where "m = (length words + s - 1) div s"
  define chunks where
    "chunks = map (\<lambda>j. join_space (take (nat chunkSize) (drop (j * s) words))) [0..<m]"
  from h have s: "0 < s" by (simp add: s_def)
  from h have "chunkText input chunkSize overlap = Some chunks"
    using chunk_loop_steps [of chunkSize overlap words 0 "[]"]
    by (simp add: chunkText_def chunks_def words_def s_def m_def)
  moreover have "k < length chunks \<longleftrightarrow> k * s < length words" for k
    using chunk_index_less [OF s, of k "length words"] by (simp add: chunks_def m_def)
  moreover have "\<forall>k < length chunks.
      chunks ! k = join_space (take (nat chunkSize) (drop (k * s) words))"
    by (simp add: chunks_def)
  ultimately show "\<exists>chunks. chunkText input chunkSize overlap = Some chunks \<and>
        (\<forall>k. k < length chunks \<longleftrightarrow>
              k * nat (chunkSize - overlap) < length (split_whitespace input)) \<and>
        (\<forall>k < length chunks. chunks ! k =
           join_space (take (nat chunkSize)
             (drop (k * nat (chunkSize - overlap)) (split_whitespace input))))"
    unfolding s_def words_def by blast
next
  have "chunkText (utf16 ''w1 w2 w3 w4 w5'') 3 1 =
          chunk_loop [[119, 49], [119, 50], [119, 51], [119, 52], [119, 53]] 3 1 0 []"
    by (simp add: utf16_def chunkText_def split_whitespace_def is_space_def)
  also have "\<dots> = Some [utf16 ''w1 w2 w3'', utf16 ''w3 w4 w5'', utf16 ''w5'']"
    by (simp add: chunk_loop.simps js_slice_def utf16_def)
  finally show "chunkText (utf16 ''w1 w2 w3 w4 w5'') 3 1 =
     Some [utf16 ''w1 w2 w3'', utf16 ''w3 w4 w5'', utf16 ''w5'']" .
qed

theorem chunkText_chunks_witness:
  "(0 :: int) \<le> 1 \<and> (1 :: int) < 2 \<and>
   chunkText (utf16 ''a b c'') 2 1 = Some [utf16 ''a b'', utf16 ''b c'', utf16 ''c'']"
proof -
  have "chunkText (utf16 ''a b c'') 2 1 = chunk_loop [[97], [98], [99]] 2 1 0 []"
    by (simp add: utf16_def chunkText_def split_whitespace_def is_space_def)
  also have "\<dots> = Some [utf16 ''a b'', utf16 ''b c'', utf16 ''c'']"
    by (simp add: chunk_loop.simps js_slice_def utf16_def)
  finally show ?thesis
    using chunkText_chunks [where overlap = 1 and chunkSize = 2 and input = "utf16 ''a b c''"]
    by simp
qed

text \<open>Claim C10: with the default parameters, \<open>chunkText\<close> of the empty string returns
  one chunk, the empty string, because splitting the empty string gives one empty
  word.\<close>

theorem chunkText_empty: "split_whitespace [] = [[]] \<and> chunkText [] 500 50 = Some [[]]"
  by (simp add: chunkText_def split_whitespace_def chunk_loop.simps js_slice_def)

section \<open>Properties of preprocessText\<close>

lemma is_space_32 [simp]: "is_space 32"
  by (simp add: is_space_def)

lemma normalize_whitespace_Nil_iff [simp]: "normalize_whitespace s = [] \<longleftrightarrow> s = []"
  by (cases s) simp_all

lemma is_space_hd_normalize:
  "s \<noteq> [] \<Longrightarrow> is_space (hd (normalize_whitespace s)) \<longleftrightarrow> is_space (hd s)"
  by (cases s) simp_all

lemma normalize_whitespace_no_runs:
  "successively (\<lambda>a b. \<not> (is_space a \<and> is_space b)) (normalize_whitespace s)"
proof (induction s rule: normalize_whitespace.induct)
  case 1
  show ?case by simp
next
  case (2 c cs)
  show ?case
  proof (cases "is_space c")
    case True
    have "dropWhile is_space cs \<noteq> [] \<Longrightarrow> \<not> is_space (hd (dropWhile is_space cs))"
      by (rule hd_dropWhile)
    then have "dropWhile is_space cs \<noteq> [] \<Longrightarrow>
               \<not> is_space (hd (normalize_whitespace (dropWhile is_space cs)))"
      by (simp add: is_space_hd_normalize)
    with True 2 show ?thesis
      by (auto simp: successively_Cons)
  next
    case False
    with 2 show ?thesis by (simp add: successively_Cons)
  qed
qed

lemma normalize_whitespace_blank:
  "\<forall>c \<in> set (normalize_whitespace s). is_space c \<longrightarrow> c = 32"
  by (induction s rule: normalize_whitespace.induct) auto

lemma filter_not_dropWhile: "filter (\<lambda>c. \<not> P c) (dropWhile P xs) = filter (\<lambda>c. \<not> P c) xs"
  by (induction xs) simp_all

lemma normalize_whitespace_keeps_rest:
  "filter (\<lambda>c. \<not> is_space c) (normalize_whitespace s) = filter (\<lambda>c. \<not> is_space c) s"
  by (induction s rule: normalize_whitespace.induct) (auto simp: filter_not_dropWhile)

lemma dropWhile_normalize:
  "s = [] \<or> \<not> is_space (hd s) \<Longrightarrow>
   dropWhile is_space (normalize_whitespace s) = normalize_whitespace s"
  by (cases s) auto

lemma dropWhile_normalize_dropWhile:
  "dropWhile is_space (normalize_whitespace (dropWhile is_space cs)) =
   normalize_whitespace (dropWhile is_space cs)"
  using hd_dropWhile [of is_space cs] by (intro dropWhile_normalize) blast

lemma split_from_normalize:
  "split_from word (normalize_whitespace s) = split_from word s"
proof (induction s arbitrary: word rule: normalize_whitespace.induct)
  case 1
  show ?case by simp
next
  case (2 c cs)
  show ?case
  proof (cases "is_space c")
    case True
    with 2 show ?thesis by (simp add: dropWhile_normalize_dropWhile)
  next
    case False
    with 2 show ?thesis by simp
  qed
qed

lemma trim_decompose:
  "\<exists>pre post. s = pre @ trim s @ post \<and> (\<forall>c \<in> set pre. is_space c) \<and> (\<forall>c \<in> set post. is_space c)"
proof -
  define t where "t = dropWhile is_space s"
  have "t = rev (takeWhile is_space (rev t) @ dropWhile is_space (rev t))"
    by (simp only: takeWhile_dropWhile_id rev_rev_ident)
  then have "t = rev (dropWhile is_space (rev t)) @ rev (takeWhile is_space (rev t))"
    by (simp only: rev_append)
  then have t: "t = trim s @ rev (takeWhile is_space (rev t))"
    by (simp only: trim_def t_def)
  have "s = takeWhile is_space s @ t" by (simp add: t_def)
  with t have "s = takeWhile is_space s @ trim s @ rev (takeWhile is_space (rev t))" by simp
  moreover have "\<forall>c \<in> set (takeWhile is_space s). is_space c"
    by (auto dest: set_takeWhileD)
  moreover have "\<forall>c \<in> set (rev (takeWhile is_space (rev t))). is_space c"
    by (auto dest: set_takeWhileD)
  ultimately show ?thesis by blast
qed

lemma last_dropWhile: "dropWhile P xs \<noteq> [] \<Longrightarrow> last (dropWhile P xs) = last xs"
  by (induction xs) (auto split: if_splits)

lemma trim_ends:
  assumes "trim s \<noteq> []"
  shows "\<not> is_space (hd (trim s)) \<and> \<not> is_space (last (trim s))"
proof -
  define t where "t = dropWhile is_space s"
  from assms have d: "dropWhile is_space (rev t) \<noteq> []" by (simp add: trim_def t_def)
  then have t: "t \<noteq> []" by auto
  have "last (trim s) = hd (dropWhile is_space (rev t))"
    using d by (simp add: trim_def t_def last_rev)
  moreover have "\<not> is_space (hd (dropWhile is_space (rev t)))"
    using d by (rule hd_dropWhile)
  moreover have "hd (trim s) = last (dropWhile is_space (rev t))"
    using d by (simp add: trim_def t_def hd_rev)
  moreover have "last (dropWhile is_space (rev t)) = hd t"
    using d t by (simp add: last_dropWhile last_rev)
  moreover have "\<not> is_space (hd t)"
    using t unfolding t_def by (rule hd_dropWhile)
  ultimately show ?thesis by simp
qed

lemma preprocessText_take:
  "preprocessText input = take 4000 (trim (remove_special (normalize_whitespace input)))"
  by (simp add: preprocessText_def js_slice_def Let_def min_def)

text \<open>Claim C5, as stated, fails on its own example: both exclamation marks are in the
  class that is kept, so the result ends in two of them.\<close>

theorem preprocessText_example_counterexample:
  "preprocessText (utf16 ''  Hello   World!!  '') \<noteq> utf16 ''Hello World!''"
  by (simp add: utf16_def preprocessText_take trim_def remove_special_def is_space_def
      is_kept_def is_word_def)

text \<open>Claim C5, amended: \<open>preprocessText\<close> is four steps in this order. It replaces
  every run of whitespace by one space (no two whitespace characters are then adjacent,
  every one is the space, the other characters and the words are as before); removes
  the characters that are not word characters, whitespace or one of \<open>. , ! ? -\<close>;
  trims the whitespace at both ends; and keeps the first 4000 code units. On
  \<open>"  Hello   World!!  "\<close> the result is \<open>"Hello World!!"\<close>. Removing a character
  between two spaces leaves both, as the witness shows.\<close>

theorem preprocessText_steps:
  "preprocessText input = take 4000 (trim (remove_special (normalize_whitespace input))) \<and>
   successively (\<lambda>a b. \<not> (is_space a \<and> is_space b)) (normalize_whitespace input) \<and>
   (\<forall>c \<in> set (normalize_whitespace input). is_space c \<longrightarrow> c = 32) \<and>
   filter (\<lambda>c. \<not> is_space c) (normalize_whitespace input) = filter (\<lambda>c. \<not> is_space c) input \<and>
   split_whitespace (normalize_whitespace input) = split_whitespace input \<and>
   remove_special s = filter is_kept s \<and>
   (\<exists>pre post. s = pre @ trim s @ post \<and>
      (\<forall>c \<in> set pre. is_space c) \<and> (\<forall>c \<in> set post. is_space c)) \<and>
   (trim s \<noteq> [] \<longrightarrow> \<not> is_space (hd (trim s)) \<and> \<not> is_space (last (trim s))) \<and>
   length (preprocessText input) \<le> 4000 \<and>
   preprocessText (utf16 ''  Hello   World!!  '') = utf16 ''Hello World!!''"
proof (intro conjI)
  show "preprocessText input = take 4000 (trim (remove_special (normalize_whitespace input)))"
    by (rule preprocessText_take)
  show "successively (\<lambda>a b. \<not> (is_space a \<and> is_space b)) (normalize_whitespace input)"
    by (rule normalize_whitespace_no_runs)
  show "\<forall>c \<in> set (normalize_whitespace input). is_space c \<longrightarrow> c = 32"
    by (rule normalize_whitespace_blank)
  show "filter (\<lambda>c. \<not> is_space c) (normalize_whitespace input) = filter (\<lambda>c. \<not> is_space c) input"
    by (rule normalize_whitespace_keeps_rest)
  show "split_whitespace (normalize_whitespace input) = split_whitespace input"
    by (simp add: split_whitespace_def split_from_normalize)
  show "remove_special s = filter is_kept s"
    by (simp add: remove_special_def)
  show "\<exists>pre post. s = pre @ trim s @ post \<and>
      (\<forall>c \<in> set pre. is_space c) \<and> (\<forall>c \<in> set post. is_space c)"
    by (rule trim_decompose)
  show "trim s \<noteq> [] \<longrightarrow> \<not> is_space (hd (trim s)) \<and> \<not> is_space (last (trim s))"
    using trim_ends by blast
  show "length (preprocessText input) \<le> 4000"
    by (simp add: preprocessText_take)
  show "preprocessText (utf16 ''  Hello   World!!  '') = utf16 ''Hello World!!''"
    by (simp add: utf16_def preprocessText_take trim_def remove_special_def is_space_def
        is_kept_def is_word_def)
qed

theorem preprocessText_steps_witness:
  "preprocessText (utf16 ''  a @  b! '') = utf16 ''a  b!'' \<and>
   normalize_whitespace (utf16 ''  a @  b! '') = utf16 '' a @ b! '' \<and>
   trim (utf16 '' a  b! '') = utf16 ''a  b!'' \<and>
   trim (utf16 '' a  b! '') \<noteq> [] \<and>
   \<not> is_space (hd (trim (utf16 '' a  b! ''))) \<and> \<not> is_space (last (trim (utf16 '' a  b! '')))"
  using preprocessText_steps [of "utf16 ''  a @  b! ''" "utf16 '' a  b! ''"]
  by (simp add: utf16_def preprocessText_take trim_def remove_special_def is_space_def
      is_kept_def is_word_def)

end
